theory Spec2Isabelle
  imports Complex_Main
begin

section \<open>Data model of server.js\<close>

text \<open>
  The server keeps everything in memory: the snapshot cache \<open>cache\<close>, the recording
  duration cache \<open>durationCache\<close> and the set of live-update channels \<open>sseClients\<close>.
  The upstream table is read as typed columns: a text column is a \<open>string\<close>, a numeric
  column an \<open>int\<close>, and a column that the payload leaves out is \<open>None\<close>. A string is a
  list of 8-bit characters, and a number is an integer.
\<close>

record airtable_fields =
  First_Name :: "string option"
  Last_Name :: "string option"
  Phone :: "string option"
  Email :: "string option"
  Address :: "string option"
  City :: "string option"
  State :: "string option"
  Zip :: "string option"
  Status :: "string option"
  Call_Outcome :: "string option"
  Last_Call_Date :: "string option"
  Latest_Recording :: "string option"
  Recording_URLs :: "string option"
  Transcript :: "string option"
  Notes :: "string option"
  Call_Duration :: "int option"
  Attempt_Count :: "int option"
  Electric_Bill :: "string option"
  Roof_Age_Years :: "int option"
  Utility_Company :: "string option"
  Calendar_Link :: "string option"
  Calculated_Date :: "string option"
  Retell_Call_ID :: "string option"
  Agent_ID :: "string option"
  Created_Date :: "string option"
  Last_Modified :: "string option"
  Days_Since_Contact :: "int option"
  Source :: "string option"
  Rep :: "string option"

record airtable_record =
  at_id :: string
  at_fields :: airtable_fields

text \<open>
  The object built by the \<open>map\<close> callback of \<open>fetchAllRecords\<close> (lines 72 to 108), and the
  same object once line 114 has attached \<open>probedDuration\<close> to it.
\<close>

record mapped =
  id' :: string
  firstName :: string
  lastName :: string
  phone :: string
  email :: string
  address :: string
  city :: string
  state :: string
  zip' :: string
  status :: string
  callOutcome :: string
  lastCallDate :: string
  recordingUrl :: string
  transcript :: string
  notes' :: string
  callDuration :: int
  attemptCount :: int
  electricBill :: string
  roofAge :: "int option"
  utilityCompany :: string
  calendarLink :: string
  calculatedDate :: string
  retellCallId :: string
  agentId :: string
  agentName :: string
  createdDate :: string
  lastModified :: string
  daysSinceContact :: "int option"
  source :: string
  rep :: string
  fields' :: airtable_fields

record lead = mapped +
  probedDuration :: int

text \<open>The four event objects that \<open>detectChanges\<close> hands to \<open>broadcast\<close>.\<close>

datatype event =
    new_lead string
  | status_change string string string
  | appointment_booked string
  | new_call string string

type_synonym client = nat

text \<open>
  What \<open>client.write(msg)\<close> does on one channel: the frame is written, the frame is lost
  without an exception (the connection of the response is gone), or the call throws. The
  channels that \<open>GET /api/events\<close> subscribes are HTTP responses and the frame is a string,
  for which \<open>write\<close> does not throw; \<open>Threw\<close> stands for a channel of any other kind.
\<close>

datatype write_result = Written | Dropped | Threw

datatype error =
    AirtableError nat string
  | FetchRejected
  | WriteFailed client

record cache =
  records :: "lead list option"
  raw :: "airtable_record list option"
  ts :: int

text \<open>
  The module state. The last four fields are not in the source: they record the page
  requests and HEAD requests sent upstream, the events passed to \<open>broadcast\<close> and the
  frames it wrote, each frame standing for the serialized event.
\<close>

record server =
  cache :: cache
  durationCache :: "string \<rightharpoonup> int"
  sseClients :: "client list"
  page_requests :: nat
  head_requests :: "string list"
  broadcasts :: "event list"
  written :: "(client \<times> event) list"

section \<open>Event broadcaster\<close>

text \<open>
  \<open>broadcast\<close> (lines 145 to 148) walks \<open>sseClients\<close> in insertion order and writes the
  frame to each channel. Nothing catches an exception of \<open>write\<close>: it leaves the loop.
\<close>

fun write_all ::
  "(client \<Rightarrow> write_result) \<Rightarrow> event \<Rightarrow> client list \<Rightarrow> (client \<times> event) list
    \<Rightarrow> error option \<times> (client \<times> event) list" where
  "write_all wr ev [] frames = (None, frames)"
| "write_all wr ev (c # cs) frames =
     (case wr c of
        Threw \<Rightarrow> (Some (WriteFailed c), frames)
      | Dropped \<Rightarrow> write_all wr ev cs frames
      | Written \<Rightarrow> write_all wr ev cs (frames @ [(c, ev)]))"

definition broadcast ::
  "(client \<Rightarrow> write_result) \<Rightarrow> event \<Rightarrow> server \<Rightarrow> error option \<times> server" where
  "broadcast wr ev s =
     (case write_all wr ev (sseClients s) (written s) of
        (err, frames) \<Rightarrow> (err, s\<lparr>broadcasts := broadcasts s @ [ev], written := frames\<rparr>))"

text \<open>The handler of \<open>GET /api/events\<close> adds a channel; its \<open>close\<close> event deletes it.\<close>

definition subscribe :: "client \<Rightarrow> server \<Rightarrow> server" where
  "subscribe c s =
     (if c \<in> set (sseClients s) then s else s\<lparr>sseClients := sseClients s @ [c]\<rparr>)"


section \<open>Change detector\<close>

definition full_name :: "'a mapped_scheme \<Rightarrow> string" where
  "full_name r = firstName r @ '' '' @ lastName r"

definition oldMap_of :: "lead list \<Rightarrow> (string \<rightharpoonup> lead)" where
  "oldMap_of oldRecs = foldl (\<lambda>m r. m(id' r \<mapsto> r)) Map.empty oldRecs"

fun detectChanges_loop ::
  "(client \<Rightarrow> write_result) \<Rightarrow> (string \<rightharpoonup> lead) \<Rightarrow> lead list \<Rightarrow> server
    \<Rightarrow> error option \<times> server" where
  "detectChanges_loop wr oldMap [] s = (None, s)"
| "detectChanges_loop wr oldMap (nr # rest) s =
     (case oldMap (id' nr) of
        None \<Rightarrow>
          (case broadcast wr (new_lead (full_name nr)) s of
             (Some e, s1) \<Rightarrow> (Some e, s1)
           | (None, s1) \<Rightarrow> detectChanges_loop wr oldMap rest s1)
      | Some or' \<Rightarrow>
          if status or' \<noteq> status nr then
            (case broadcast wr (status_change (full_name nr) (status or') (status nr)) s of
               (Some e, s1) \<Rightarrow> (Some e, s1)
             | (None, s1) \<Rightarrow>
                 if status nr = ''Booked'' \<and> status or' \<noteq> ''Booked'' then
                   (case broadcast wr (appointment_booked (full_name nr)) s1 of
                      (Some e, s2) \<Rightarrow> (Some e, s2)
                    | (None, s2) \<Rightarrow> detectChanges_loop wr oldMap rest s2)
                 else detectChanges_loop wr oldMap rest s1)
          else if lastCallDate or' \<noteq> lastCallDate nr then
            (case broadcast wr (new_call (full_name nr) (callOutcome nr)) s of
               (Some e, s1) \<Rightarrow> (Some e, s1)
             | (None, s1) \<Rightarrow> detectChanges_loop wr oldMap rest s1)
          else detectChanges_loop wr oldMap rest s)"

definition detectChanges ::
  "(client \<Rightarrow> write_result) \<Rightarrow> lead list \<Rightarrow> lead list \<Rightarrow> server \<Rightarrow> error option \<times> server" where
  "detectChanges wr oldRecs newRecs s = detectChanges_loop wr (oldMap_of oldRecs) newRecs s"

text \<open>
  The diff as the specification words it, to be compared with \<open>detectChanges\<close>: the old
  record of an id is the one that the identity-keyed lookup holds, the last of that id.
\<close>

definition old_record :: "lead list \<Rightarrow> string \<Rightarrow> lead option" where
  "old_record oldRecs i = find (\<lambda>r. id' r = i) (rev oldRecs)"

definition spec_group :: "lead list \<Rightarrow> lead \<Rightarrow> event list" where
  "spec_group oldRecs nr =
     (case old_record oldRecs (id' nr) of
        None \<Rightarrow> [new_lead (full_name nr)]
      | Some or' \<Rightarrow>
          if status or' \<noteq> status nr then
            status_change (full_name nr) (status or') (status nr)
              # (if status nr = ''Booked'' \<and> status or' \<noteq> ''Booked''
                 then [appointment_booked (full_name nr)] else [])
          else if lastCallDate or' \<noteq> lastCallDate nr then
            [new_call (full_name nr) (callOutcome nr)]
          else [])"

definition spec_diff :: "lead list \<Rightarrow> lead list \<Rightarrow> event list" where
  "spec_diff oldRecs newRecs = concat (map (spec_group oldRecs) newRecs)"

text \<open>The frames that reach the channels when \<open>ev\<close> is written to \<open>cs\<close> and no write throws.\<close>

definition deliveries :: "(client \<Rightarrow> write_result) \<Rightarrow> client list \<Rightarrow> event \<Rightarrow> (client \<times> event) list" where
  "deliveries wr cs ev = map (\<lambda>c. (c, ev)) (filter (\<lambda>c. wr c = Written) cs)"

definition no_fields :: airtable_fields where
  "no_fields = \<lparr> First_Name = None, Last_Name = None, Phone = None, Email = None,
     Address = None, City = None, State = None, Zip = None, Status = None,
     Call_Outcome = None, Last_Call_Date = None, Latest_Recording = None,
     Recording_URLs = None, Transcript = None, Notes = None, Call_Duration = None,
     Attempt_Count = None, Electric_Bill = None, Roof_Age_Years = None,
     Utility_Company = None, Calendar_Link = None, Calculated_Date = None,
     Retell_Call_ID = None, Agent_ID = None, Created_Date = None, Last_Modified = None,
     Days_Since_Contact = None, Source = None, Rep = None \<rparr>"

text \<open>A record of the given id and status with every other attribute empty.\<close>

definition lead_of :: "string \<Rightarrow> string \<Rightarrow> lead" where
  "lead_of i st = \<lparr> id' = i, firstName = [], lastName = [], phone = [], email = [],
     address = [], city = [], state = [], zip' = [], status = st, callOutcome = [],
     lastCallDate = [], recordingUrl = [], transcript = [], notes' = [], callDuration = 0,
     attemptCount = 0, electricBill = [], roofAge = None, utilityCompany = [],
     calendarLink = [], calculatedDate = [], retellCallId = [], agentId = [],
     agentName = ''Unknown'', createdDate = [], lastModified = [],
     daysSinceContact = None, source = [], rep = [], fields' = no_fields,
     probedDuration = 0 \<rparr>"

definition server0 :: server where
  "server0 = \<lparr> cache = \<lparr> records = None, raw = None, ts = 0 \<rparr>, durationCache = Map.empty,
     sseClients = [], page_requests = 0, head_requests = [], broadcasts = [], written = [] \<rparr>"

text \<open>The state once \<open>broadcast\<close> has returned normally for each event of \<open>evs\<close> in turn.\<close>

definition after_events :: "(client \<Rightarrow> write_result) \<Rightarrow> event list \<Rightarrow> server \<Rightarrow> server" where
  "after_events wr evs s =
     s\<lparr>broadcasts := broadcasts s @ evs,
       written := written s @ concat (map (deliveries wr (sseClients s)) evs)\<rparr>"

text \<open>Three subscribed channels; every write to the second is lost without an exception.\<close>

definition second_drops :: "client \<Rightarrow> write_result" where
  "second_drops c = (if c = 2 then Dropped else Written)"

definition three_clients :: server where
  "three_clients = server0\<lparr>sseClients := [1, 2, 3]\<rparr>"

section \<open>Upstream services\<close>

text \<open>
  The record store, the recording host and the live-update channels are outside the
  program. A page request is answered by a transport failure, a response that is not ok
  (status and body), or a page with its records and continuation cursor; a HEAD request by
  a failure (timeout included) or a response with its ok flag and content-length header.
  The answer may depend on how many requests were sent before, so the same request can be
  answered differently later.
\<close>

datatype page_response = Rejected | NotOk nat string | Page "airtable_record list" "string option"

datatype head_response = HeadRejected | HeadResponse bool "nat option"

record upstream =
  airtable :: "nat \<Rightarrow> string option \<Rightarrow> page_response"
  wav_head :: "nat \<Rightarrow> string \<Rightarrow> head_response"
  client_write :: "client \<Rightarrow> write_result"

section \<open>Recording duration cache\<close>

text \<open>
  What lines 28 to 33 make of the response to the HEAD request: the duration that is stored
  in \<open>durationCache\<close>, or nothing when \<open>probeWavDuration\<close> returns 0 without storing.
  \<open>Math.round\<close> of a positive quotient by 48000 rounds the half up.
\<close>

definition head_duration :: "head_response \<Rightarrow> int option" where
  "head_duration resp =
     (case resp of
        HeadRejected \<Rightarrow> None
      | HeadResponse ok content_length \<Rightarrow>
          if \<not> ok then None
          else (let len = (case content_length of None \<Rightarrow> 0 | Some n \<Rightarrow> int n) in
                if len \<le> 44 then None
                else Some ((len - 44 + 24000) div 48000)))"

definition probeWavDuration :: "upstream \<Rightarrow> string \<Rightarrow> server \<Rightarrow> int \<times> server" where
  "probeWavDuration up url s =
     (if url = [] then (0, s)
      else case durationCache s url of
        Some d \<Rightarrow> (d, s)
      | None \<Rightarrow>
          (let k = length (head_requests s);
               s1 = s\<lparr>head_requests := head_requests s @ [url]\<rparr>
           in case head_duration (wav_head up k url) of
                None \<Rightarrow> (0, s1)
              | Some dur \<Rightarrow> (dur, s1\<lparr>durationCache := (durationCache s1)(url \<mapsto> dur)\<rparr>)))"

text \<open>
  \<open>probeAllDurations\<close> (lines 38 to 44) starts one probe per record of \<open>toProbe\<close> before any
  of them resumes, so each of them sends its request. The responses are taken in the order
  of the requests.
\<close>

definition toProbe_of :: "(string \<rightharpoonup> int) \<Rightarrow> mapped list \<Rightarrow> mapped list" where
  "toProbe_of dc rs =
     filter (\<lambda>r. recordingUrl r \<noteq> [] \<and> callDuration r = 0 \<and> dc (recordingUrl r) = None) rs"

fun probes_complete ::
  "upstream \<Rightarrow> nat \<Rightarrow> string list \<Rightarrow> (string \<rightharpoonup> int) \<Rightarrow> (string \<rightharpoonup> int)" where
  "probes_complete up k [] dc = dc"
| "probes_complete up k (url # urls) dc =
     probes_complete up (Suc k) urls
       (case head_duration (wav_head up k url) of None \<Rightarrow> dc | Some dur \<Rightarrow> dc(url \<mapsto> dur))"

section \<open>Snapshot fetcher and cache\<close>

definition CACHE_TTL :: int where
  "CACHE_TTL = 20000"

definition AGENT_NAMES :: "string \<Rightarrow> string option" where
  "AGENT_NAMES a =
     (if a = ''agent_1e091e25b84ea5d6b51088aaed'' then Some ''Rebate Program''
      else if a = ''agent_458529f65d305930d071f2a93e'' then Some ''Reduced Energy''
      else None)"

text \<open>
  \<open>v || d\<close> on a text column and \<open>v || 0\<close> on a numeric one. \<open>v ?? ''\<close> on a numeric
  column keeps the number, and \<open>None\<close> stands for the empty string it gives otherwise.
\<close>

definition js_or :: "string option \<Rightarrow> string \<Rightarrow> string" where
  "js_or v d = (case v of None \<Rightarrow> d | Some x \<Rightarrow> if x = [] then d else x)"

definition or_zero :: "int option \<Rightarrow> int" where
  "or_zero v = (case v of None \<Rightarrow> 0 | Some n \<Rightarrow> if n = 0 then 0 else n)"

definition nullish :: "int option \<Rightarrow> int option" where
  "nullish v = (case v of None \<Rightarrow> None | Some n \<Rightarrow> Some n)"

definition map_record :: "airtable_record \<Rightarrow> mapped" where
  "map_record r =
     (let f = at_fields r in
      \<lparr> id' = at_id r,
        firstName = js_or (First_Name f) [],
        lastName = js_or (Last_Name f) [],
        phone = js_or (Phone f) [],
        email = js_or (Email f) [],
        address = js_or (Address f) [],
        city = js_or (City f) [],
        state = js_or (State f) [],
        zip' = js_or (Zip f) [],
        status = js_or (Status f) [],
        callOutcome = js_or (Call_Outcome f) [],
        lastCallDate = js_or (Last_Call_Date f) [],
        recordingUrl = js_or (Latest_Recording f) (js_or (Recording_URLs f) []),
        transcript = js_or (Transcript f) [],
        notes' = js_or (Notes f) [],
        callDuration = or_zero (Call_Duration f),
        attemptCount = or_zero (Attempt_Count f),
        electricBill = js_or (Electric_Bill f) [],
        roofAge = nullish (Roof_Age_Years f),
        utilityCompany = js_or (Utility_Company f) [],
        calendarLink = js_or (Calendar_Link f) [],
        calculatedDate = js_or (Calculated_Date f) [],
        retellCallId = js_or (Retell_Call_ID f) [],
        agentId = js_or (Agent_ID f) [],
        agentName =
          js_or (case Agent_ID f of None \<Rightarrow> None | Some a \<Rightarrow> AGENT_NAMES a)
            (js_or (Agent_ID f) ''Unknown''),
        createdDate = js_or (Created_Date f) [],
        lastModified = js_or (Last_Modified f) [],
        daysSinceContact = nullish (Days_Since_Contact f),
        source = js_or (Source f) [],
        rep = js_or (Rep f) [],
        fields' = f \<rparr>)"

text \<open>Line 114: \<open>r.probedDuration = r.callDuration || durationCache.get(r.recordingUrl) || 0\<close>.\<close>

definition attach :: "(string \<rightharpoonup> int) \<Rightarrow> mapped \<Rightarrow> lead" where
  "attach dc r =
     mapped.extend r (lead.fields
       (if callDuration r \<noteq> 0 then callDuration r
        else case dc (recordingUrl r) of
               None \<Rightarrow> 0
             | Some d \<Rightarrow> if d \<noteq> 0 then d else 0))"

text \<open>
  A call of \<open>fetchAllRecords\<close> runs until its next \<open>await\<close> and is resumed when the awaited
  response is there; other calls and handlers run in between. A suspended call holds its
  locals: \<open>now\<close>, \<open>allRecords\<close>, the request it waits for, and after the last page the
  \<open>mapped\<close> array and the HEAD requests of its probes. The probes of one call resume
  together.
\<close>

datatype task =
    AwaitPage int "airtable_record list" nat "string option"
  | AwaitProbes int "airtable_record list" "mapped list" nat "string list"
  | Returned "error + lead list"

definition send_page ::
  "int \<Rightarrow> airtable_record list \<Rightarrow> string option \<Rightarrow> server \<Rightarrow> task \<times> server" where
  "send_page now allRecords offset s =
     (AwaitPage now allRecords (page_requests s) offset,
      s\<lparr>page_requests := Suc (page_requests s)\<rparr>)"

text \<open>Lines 51 to 65: the cache test, and the first page request when the test fails.\<close>

definition call :: "int \<Rightarrow> server \<Rightarrow> task \<times> server" where
  "call now s =
     (case records (cache s) of
        Some rs \<Rightarrow>
          if now - ts (cache s) < CACHE_TTL then (Returned (Inr rs), s)
          else send_page now [] None s
      | None \<Rightarrow> send_page now [] None s)"

fun resume :: "upstream \<Rightarrow> task \<Rightarrow> server \<Rightarrow> task \<times> server" where
  "resume up (AwaitPage now allRecords k offset) s =
     (case airtable up k offset of
        Rejected \<Rightarrow> (Returned (Inl FetchRejected), s)
      | NotOk st body \<Rightarrow> (Returned (Inl (AirtableError st body)), s)
      | Page recs off \<Rightarrow>
          (case (case off of None \<Rightarrow> None | Some x \<Rightarrow> if x = [] then None else Some x) of
             Some x \<Rightarrow> send_page now (allRecords @ recs) (Some x) s
           | None \<Rightarrow>
               (let ms = map map_record (allRecords @ recs);
                    urls = map recordingUrl (toProbe_of (durationCache s) ms)
                in (AwaitProbes now (allRecords @ recs) ms (length (head_requests s)) urls,
                    s\<lparr>head_requests := head_requests s @ urls\<rparr>))))"
| "resume up (AwaitProbes now allRecords ms k urls) s =
     (let s1 = s\<lparr>durationCache := probes_complete up k urls (durationCache s)\<rparr>;
          leads = map (attach (durationCache s1)) ms;
          prev = records (cache s1);
          s2 = s1\<lparr>cache := \<lparr> records = Some leads, raw = Some allRecords, ts = now \<rparr>\<rparr>
      in case prev of
           None \<Rightarrow> (Returned (Inr leads), s2)
         | Some old \<Rightarrow>
             (case detectChanges (client_write up) old leads s2 of
                (Some e, s3) \<Rightarrow> (Returned (Inl e), s3)
              | (None, s3) \<Rightarrow> (Returned (Inr leads), s3)))"
| "resume up (Returned res) s = (Returned res, s)"

text \<open>One call of \<open>fetchAllRecords\<close> with nothing running in between.\<close>

partial_function (option) run_task ::
  "upstream \<Rightarrow> task \<Rightarrow> server \<Rightarrow> ((error + lead list) \<times> server) option" where
  "run_task up t s =
     (case t of
        Returned res \<Rightarrow> Some (res, s)
      | AwaitPage now allRecords k offset \<Rightarrow>
          (case resume up t s of (t1, s1) \<Rightarrow> run_task up t1 s1)
      | AwaitProbes now allRecords ms k urls \<Rightarrow>
          (case resume up t s of (t1, s1) \<Rightarrow> run_task up t1 s1))"

declare run_task.simps [code]

definition fetchAllRecords ::
  "upstream \<Rightarrow> int \<Rightarrow> server \<Rightarrow> ((error + lead list) \<times> server) option" where
  "fetchAllRecords up now s = (case call now s of (t, s1) \<Rightarrow> run_task up t s1)"

text \<open>
  Several calls in flight: a handler calls \<open>fetchAllRecords\<close> at some time, or the call
  suspended at some position is resumed.
\<close>

datatype sched_event = Call int | Resume nat

fun sched_step :: "upstream \<Rightarrow> task list \<times> server \<Rightarrow> sched_event \<Rightarrow> task list \<times> server" where
  "sched_step up (tasks, s) (Call now) = (case call now s of (t, s1) \<Rightarrow> (tasks @ [t], s1))"
| "sched_step up (tasks, s) (Resume i) =
     (if i < length tasks
      then (case resume up (tasks ! i) s of (t, s1) \<Rightarrow> (tasks[i := t], s1))
      else (tasks, s))"

definition schedule ::
  "upstream \<Rightarrow> sched_event list \<Rightarrow> task list \<times> server \<Rightarrow> task list \<times> server" where
  "schedule up evs st = foldl (sched_step up) st evs"

text \<open>The cache test of line 52.\<close>

definition fresh :: "int \<Rightarrow> cache \<Rightarrow> bool" where
  "fresh now c = (records c \<noteq> None \<and> now - ts c < CACHE_TTL)"

text \<open>
  The page requests of one fetch that starts with request \<open>k\<close>: \<open>n\<close> pages that carry a
  cursor, then a request that fails. The result is the error that request raises.
\<close>

fun fails_at :: "upstream \<Rightarrow> nat \<Rightarrow> string option \<Rightarrow> nat \<Rightarrow> error option" where
  "fails_at up k offset 0 =
     (case airtable up k offset of
        Rejected \<Rightarrow> Some FetchRejected
      | NotOk st body \<Rightarrow> Some (AirtableError st body)
      | Page recs off \<Rightarrow> None)"
| "fails_at up k offset (Suc n) =
     (case airtable up k offset of
        Page recs (Some x) \<Rightarrow> if x = [] then None else fails_at up (Suc k) (Some x) n
      | _ \<Rightarrow> None)"

text \<open>The identity and status of the records a finished call returned.\<close>

definition returned_statuses :: "task \<Rightarrow> (string \<times> string) list option" where
  "returned_statuses t =
     (case t of
        Returned (Inr leads) \<Rightarrow> Some (map (\<lambda>r. (id' r, status r)) leads)
      | _ \<Rightarrow> None)"

subsection \<open>Example upstreams\<close>

text \<open>A table of one record whose status is New on the first page request and Booked later.\<close>

definition changing_table :: upstream where
  "changing_table =
     \<lparr> airtable = (\<lambda>k offset.
         Page [\<lparr> at_id = ''recA'',
                 at_fields = no_fields\<lparr>Status := Some (if k = 0 then ''New'' else ''Booked'')\<rparr> \<rparr>]
           None),
       wav_head = (\<lambda>k url. HeadRejected),
       client_write = (\<lambda>c. Written) \<rparr>"


text \<open>
  A recording host that answers the first HEAD request with a response that is not ok and
  every later one with a file of 480044 bytes.
\<close>

definition flaky_host :: upstream where
  "flaky_host =
     \<lparr> airtable = (\<lambda>k offset. Rejected),
       wav_head = (\<lambda>k url. if k = 0 then HeadResponse False None
                            else HeadResponse True (Some 480044)),
       client_write = (\<lambda>c. Written) \<rparr>"

text \<open>
  A table of two pages whose second page request is answered with status 503, and a
  recording host that answers every HEAD request with a file of 96044 bytes.
\<close>

definition second_page_fails :: upstream where
  "second_page_fails =
     \<lparr> airtable = (\<lambda>k offset.
         case offset of
           None \<Rightarrow> Page [\<lparr> at_id = ''recA'', at_fields = no_fields \<rparr>] (Some ''itr1'')
         | Some x \<Rightarrow> NotOk 503 ''unavailable''),
       wav_head = (\<lambda>k url. HeadResponse True (Some 96044)),
       client_write = (\<lambda>c. Written) \<rparr>"

subsection \<open>What a call leaves behind\<close>

text \<open>The errors that a page request raises, as opposed to a write to a channel.\<close>

definition page_failure :: "error \<Rightarrow> bool" where
  "page_failure e = (case e of WriteFailed c \<Rightarrow> False | _ \<Rightarrow> True)"

text \<open>The value that line 114 gives \<open>probedDuration\<close>, read off the finished record.\<close>

definition probed_as_attached :: "(string \<rightharpoonup> int) \<Rightarrow> lead \<Rightarrow> bool" where
  "probed_as_attached dc r =
     (probedDuration r =
        (if callDuration r \<noteq> 0 then callDuration r
         else case dc (recordingUrl r) of None \<Rightarrow> 0 | Some d \<Rightarrow> d))"

text \<open>The cache holds the snapshot \<open>rs\<close> captured at \<open>now\<close>.\<close>

definition installed :: "int \<Rightarrow> lead list \<Rightarrow> server \<Rightarrow> bool" where
  "installed now rs s1 =
     (records (cache s1) = Some rs \<and> ts (cache s1) = now
      \<and> list_all (probed_as_attached (durationCache s1)) rs)"

text \<open>
  What holds of the result \<open>y\<close> of a call resumed in state \<open>s\<close> at the point \<open>t\<close>: an error
  of a page request leaves the state as it was but for the counter of page requests, no such
  error comes after the last page, and a returned snapshot is the one in the cache.
\<close>

definition run_post :: "task \<Rightarrow> server \<Rightarrow> (error + lead list) \<times> server \<Rightarrow> bool" where
  "run_post t s y =
     (page_requests s \<le> page_requests (snd y) \<and>
      (case t of
        Returned res \<Rightarrow> y = (res, s)
      | AwaitPage now allRecords k offset \<Rightarrow>
          (case fst y of
             Inl e \<Rightarrow> if page_failure e
                      then snd y = s\<lparr>page_requests := page_requests (snd y)\<rparr>
                      else True
           | Inr rs \<Rightarrow> installed now rs (snd y))
      | AwaitProbes now allRecords ms k urls \<Rightarrow>
          (case fst y of
             Inl e \<Rightarrow> \<not> page_failure e
           | Inr rs \<Rightarrow> installed now rs (snd y))))"


text \<open>The state after the first fetch from \<open>changing_table\<close> at time 100000.\<close>

definition recA_New :: airtable_record where
  "recA_New = \<lparr> at_id = ''recA'', at_fields = no_fields\<lparr>Status := Some ''New''\<rparr> \<rparr>"

definition snapshot_A :: "lead list" where
  "snapshot_A = [attach Map.empty (map_record recA_New)]"

definition server_A :: server where
  "server_A = server0\<lparr>cache := \<lparr> records = Some snapshot_A, raw = Some [recA_New], ts = 100000 \<rparr>,
     page_requests := 1\<rparr>"

text \<open>A table of one record without a call duration whose recording is 96044 bytes long.\<close>

definition recorded_table :: upstream where
  "recorded_table =
     \<lparr> airtable = (\<lambda>k offset.
         Page [\<lparr> at_id = ''recA'',
                 at_fields = no_fields\<lparr>Latest_Recording := Some ''https://x/a.wav''\<rparr> \<rparr>] None),
       wav_head = (\<lambda>k url. HeadResponse True (Some 96044)),
       client_write = (\<lambda>c. Written) \<rparr>"

text \<open>The state after the first fetch from \<open>recorded_table\<close> at time 100000.\<close>

definition recording_A :: string where
  "recording_A = ''https://x/a.wav''"




section \<open>View engine\<close>

text \<open>
  The handler of \<open>GET /api/leads\<close> (lines 177 to 270) after it has obtained the snapshot
  \<open>all\<close>. Functions of the JavaScript runtime whose result the source does not determine
  are parameters: \<open>parseInt\<close> (\<open>None\<close> for \<open>NaN\<close>), \<open>localeCompare\<close>, \<open>toLowerCase\<close>, the
  calendar date of \<open>toISOString\<close> for a time in milliseconds, and \<open>toFixed(1)\<close> of an exact
  quotient.
\<close>

record runtime =
  parseInt :: "string \<Rightarrow> int option"
  localeCompare :: "string \<Rightarrow> string \<Rightarrow> int"
  toLowerCase :: "string \<Rightarrow> string"
  isoDate :: "int \<Rightarrow> string"
  toFixed1 :: "rat \<Rightarrow> string"

text \<open>The query string, each parameter absent or a string.\<close>

record query =
  q_search :: "string option"
  q_status :: "string option"
  q_outcome :: "string option"
  q_agent :: "string option"
  q_dateFrom :: "string option"
  q_dateTo :: "string option"
  q_minDuration :: "string option"
  q_page :: "string option"
  q_limit :: "string option"
  q_sort :: "string option"
  q_dir :: "string option"

subsection \<open>Strings\<close>

text \<open>The relational operators on strings and the default order of \<open>sort()\<close>: by code unit.\<close>

fun str_less :: "string \<Rightarrow> string \<Rightarrow> bool" where
  "str_less [] [] = False"
| "str_less [] (y # ys) = True"
| "str_less (x # xs) [] = False"
| "str_less (x # xs) (y # ys) =
     ((of_char x :: nat) < of_char y \<or> (x = y \<and> str_less xs ys))"

definition str_le :: "string \<Rightarrow> string \<Rightarrow> bool" where
  "str_le a b = (\<not> str_less b a)"

definition code_unit_compare :: "string \<Rightarrow> string \<Rightarrow> int" where
  "code_unit_compare a b = (if str_less a b then - 1 else if str_less b a then 1 else 0)"

fun includes' :: "string \<Rightarrow> string \<Rightarrow> bool" where
  "includes' [] q = (q = [])"
| "includes' (c # cs) q = (take (length q) (c # cs) = q \<or> includes' cs q)"

definition startsWith :: "string \<Rightarrow> string \<Rightarrow> bool" where
  "startsWith s p = (take (length p) s = p)"

fun split_on :: "char \<Rightarrow> string \<Rightarrow> string list" where
  "split_on sep [] = [[]]"
| "split_on sep (c # cs) =
     (if c = sep then [] # split_on sep cs
      else (case split_on sep cs of [] \<Rightarrow> [[c]] | w # ws \<Rightarrow> (c # w) # ws))"

text \<open>\<open>s.split('T')[0]\<close>.\<close>

definition date_part :: "string \<Rightarrow> string" where
  "date_part s = takeWhile (\<lambda>c. c \<noteq> CHR ''T'') s"

text \<open>\<open>String(n)\<close> for an integer.\<close>

fun digits :: "nat \<Rightarrow> string" where
  "digits n =
     (if n < 10 then [char_of (48 + n)]
      else digits (n div 10) @ [char_of (48 + n mod 10)])"

definition String_of_int :: "int \<Rightarrow> string" where
  "String_of_int n = (if n < 0 then CHR ''-'' # digits (nat (- n)) else digits (nat n))"

subsection \<open>Arrays\<close>

text \<open>
  \<open>Array.prototype.sort\<close> with a comparator is a function of the runtime, specified to be
  stable: an element goes after the elements that do not compare greater than it.
\<close>

fun insert_by :: "('a \<Rightarrow> 'a \<Rightarrow> int) \<Rightarrow> 'a \<Rightarrow> 'a list \<Rightarrow> 'a list" where
  "insert_by cmp x [] = [x]"
| "insert_by cmp x (y # ys) = (if cmp x y < 0 then x # y # ys else y # insert_by cmp x ys)"

definition sort_by :: "('a \<Rightarrow> 'a \<Rightarrow> int) \<Rightarrow> 'a list \<Rightarrow> 'a list" where
  "sort_by cmp xs = foldl (\<lambda>sorted x. insert_by cmp x sorted) [] xs"

text \<open>\<open>[...new Set(xs)]\<close> keeps the first occurrence of each element.\<close>

definition uniq :: "'a list \<Rightarrow> 'a list" where
  "uniq xs = rev (remdups (rev xs))"

text \<open>\<open>xs.slice(start, end)\<close>, where \<open>NaN\<close> counts as 0.\<close>

definition slice :: "'a list \<Rightarrow> int option \<Rightarrow> int option \<Rightarrow> 'a list" where
  "slice xs start end =
     (let a = (case start of None \<Rightarrow> 0 | Some i \<Rightarrow> nat i);
          b = (case end of None \<Rightarrow> 0 | Some i \<Rightarrow> nat i)
      in take (b - a) (drop a xs))"

subsection \<open>Filtering\<close>

text \<open>\<open>if (param) filtered = ...\<close>: the step is taken when the parameter is a non-empty string.\<close>

definition when_given :: "string option \<Rightarrow> (string \<Rightarrow> 'a \<Rightarrow> 'a) \<Rightarrow> 'a \<Rightarrow> 'a" where
  "when_given param step x =
     (case param of None \<Rightarrow> x | Some v \<Rightarrow> if v = [] then x else step v x)"

definition matches_search :: "runtime \<Rightarrow> string \<Rightarrow> lead \<Rightarrow> bool" where
  "matches_search rt q r =
     (includes' (toLowerCase rt (firstName r @ '' '' @ lastName r)) q
      \<or> includes' (phone r) q
      \<or> includes' (toLowerCase rt (address r)) q
      \<or> includes' (toLowerCase rt (email r)) q)"

definition apply_filters :: "runtime \<Rightarrow> query \<Rightarrow> lead list \<Rightarrow> lead list" where
  "apply_filters rt qu all =
     (when_given (q_minDuration qu)
        (\<lambda>v. filter (\<lambda>r. case parseInt rt v of None \<Rightarrow> False | Some md \<Rightarrow> md \<le> probedDuration r))
      (when_given (q_dateTo qu)
        (\<lambda>dateTo. filter (\<lambda>r. str_le (lastCallDate r) (dateTo @ ''T23:59:59'')))
      (when_given (q_dateFrom qu)
        (\<lambda>dateFrom. filter (\<lambda>r. str_le dateFrom (lastCallDate r)))
      (when_given (q_agent qu)
        (\<lambda>v. filter (\<lambda>r. agentId r \<in> set (split_on CHR '','' v)
                        \<or> agentName r \<in> set (split_on CHR '','' v)))
      (when_given (q_outcome qu)
        (\<lambda>v. filter (\<lambda>r. callOutcome r \<in> set (split_on CHR '','' v)))
      (when_given (q_status qu)
        (\<lambda>v. filter (\<lambda>r. status r \<in> set (split_on CHR '','' v)))
      (when_given (q_search qu)
        (\<lambda>v. filter (matches_search rt (toLowerCase rt v)))
       all)))))))"

subsection \<open>Sorting\<close>

datatype jsval = JNum int | JStr string | JObj

text \<open>\<open>a[sortKey]\<close> on a record of the snapshot; \<open>None\<close> is \<open>undefined\<close>.\<close>

definition get_field :: "string \<Rightarrow> lead \<Rightarrow> jsval option" where
  "get_field k r =
     (if k = ''id'' then Some (JStr (id' r))
      else if k = ''firstName'' then Some (JStr (firstName r))
      else if k = ''lastName'' then Some (JStr (lastName r))
      else if k = ''phone'' then Some (JStr (phone r))
      else if k = ''email'' then Some (JStr (email r))
      else if k = ''address'' then Some (JStr (address r))
      else if k = ''city'' then Some (JStr (city r))
      else if k = ''state'' then Some (JStr (state r))
      else if k = ''zip'' then Some (JStr (zip' r))
      else if k = ''status'' then Some (JStr (status r))
      else if k = ''callOutcome'' then Some (JStr (callOutcome r))
      else if k = ''lastCallDate'' then Some (JStr (lastCallDate r))
      else if k = ''recordingUrl'' then Some (JStr (recordingUrl r))
      else if k = ''transcript'' then Some (JStr (transcript r))
      else if k = ''notes'' then Some (JStr (notes' r))
      else if k = ''callDuration'' then Some (JNum (callDuration r))
      else if k = ''attemptCount'' then Some (JNum (attemptCount r))
      else if k = ''electricBill'' then Some (JStr (electricBill r))
      else if k = ''roofAge'' then
        Some (case roofAge r of None \<Rightarrow> JStr [] | Some n \<Rightarrow> JNum n)
      else if k = ''utilityCompany'' then Some (JStr (utilityCompany r))
      else if k = ''calendarLink'' then Some (JStr (calendarLink r))
      else if k = ''calculatedDate'' then Some (JStr (calculatedDate r))
      else if k = ''retellCallId'' then Some (JStr (retellCallId r))
      else if k = ''agentId'' then Some (JStr (agentId r))
      else if k = ''agentName'' then Some (JStr (agentName r))
      else if k = ''createdDate'' then Some (JStr (createdDate r))
      else if k = ''lastModified'' then Some (JStr (lastModified r))
      else if k = ''daysSinceContact'' then
        Some (case daysSinceContact r of None \<Rightarrow> JStr [] | Some n \<Rightarrow> JNum n)
      else if k = ''source'' then Some (JStr (source r))
      else if k = ''rep'' then Some (JStr (rep r))
      else if k = ''fields'' then Some JObj
      else if k = ''probedDuration'' then Some (JNum (probedDuration r))
      else None)"

text \<open>\<open>a[sortKey] ?? ''\<close> and \<open>String(av)\<close>.\<close>

definition sort_value :: "string \<Rightarrow> lead \<Rightarrow> jsval" where
  "sort_value k r = (case get_field k r of None \<Rightarrow> JStr [] | Some v \<Rightarrow> v)"

definition String' :: "jsval \<Rightarrow> string" where
  "String' v =
     (case v of JNum n \<Rightarrow> String_of_int n | JStr s \<Rightarrow> s | JObj \<Rightarrow> ''[object Object]'')"

text \<open>The comparator of lines 198 to 203.\<close>

definition compare_leads :: "runtime \<Rightarrow> string \<Rightarrow> string \<Rightarrow> lead \<Rightarrow> lead \<Rightarrow> int" where
  "compare_leads rt sortKey dir a b =
     (case (sort_value sortKey a, sort_value sortKey b) of
        (JNum x, JNum y) \<Rightarrow> if dir = ''asc'' then x - y else y - x
      | (av, bv) \<Rightarrow>
          if dir = ''asc'' then localeCompare rt (String' av) (String' bv)
          else localeCompare rt (String' bv) (String' av))"

definition sort_param :: "query \<Rightarrow> string" where
  "sort_param qu = (case q_sort qu of None \<Rightarrow> ''lastCallDate'' | Some v \<Rightarrow> v)"

definition dir_param :: "query \<Rightarrow> string" where
  "dir_param qu = (case q_dir qu of None \<Rightarrow> ''desc'' | Some v \<Rightarrow> v)"

definition sorted_filtered :: "runtime \<Rightarrow> query \<Rightarrow> lead list \<Rightarrow> lead list" where
  "sorted_filtered rt qu all =
     sort_by (compare_leads rt (sort_param qu) (dir_param qu)) (apply_filters rt qu all)"

subsection \<open>Pagination\<close>

record pagination =
  page :: "int option"
  limit :: "int option"
  total :: nat
  pages :: "int option"

definition page_number :: "runtime \<Rightarrow> query \<Rightarrow> int option" where
  "page_number rt qu =
     (case q_page qu of None \<Rightarrow> Some 1 | Some v \<Rightarrow> map_option (max 1) (parseInt rt v))"

definition page_limit :: "runtime \<Rightarrow> query \<Rightarrow> int option" where
  "page_limit rt qu =
     (case q_limit qu of
        None \<Rightarrow> Some 20
      | Some v \<Rightarrow> map_option (\<lambda>n. max 1 (min 100 n)) (parseInt rt v))"

definition paginate :: "runtime \<Rightarrow> query \<Rightarrow> lead list \<Rightarrow> lead list \<times> pagination" where
  "paginate rt qu filtered =
     (let p = page_number rt qu; l = page_limit rt qu
      in (slice filtered
            (case (p, l) of (Some pn, Some lv) \<Rightarrow> Some ((pn - 1) * lv) | _ \<Rightarrow> None)
            (case (p, l) of (Some pn, Some lv) \<Rightarrow> Some (pn * lv) | _ \<Rightarrow> None),
          \<lparr> page = p, limit = l, total = length filtered,
            pages = map_option (\<lambda>lv. (int (length filtered) + lv - 1) div lv) l \<rparr>))"

subsection \<open>Stats\<close>

record stats =
  bookedToday :: nat
  bookedYesterday :: nat
  readyToCall :: nat
  needsRetry :: nat
  callbacksScheduled :: nat
  currentlyCalling :: nat
  totalCallsToday :: nat
  totalCallsYesterday :: nat
  conversionRate :: string
  totalBooked :: nat
  totalContacted :: nat
  avgDuration :: int
  avgAttemptsToBook :: string
  callsTrend :: "nat list"
  bookedTrend :: "nat list"
  trendDays :: "string list"

text \<open>\<open>Math.round\<close> of an exact quotient: the half goes up.\<close>

definition Math_round :: "rat \<Rightarrow> int" where
  "Math_round x = \<lfloor>x + 1 / 2\<rfloor>"

text \<open>
  The \<open>trends\<close> object: its keys in the order they were first set, each with its \<open>calls\<close>
  and \<open>booked\<close> counters.
\<close>

fun obj_set :: "(string \<times> 'v) list \<Rightarrow> string \<Rightarrow> 'v \<Rightarrow> (string \<times> 'v) list" where
  "obj_set [] k v = [(k, v)]"
| "obj_set ((k', v') # kvs) k v =
     (if k' = k then (k, v) # kvs else (k', v') # obj_set kvs k v)"

definition trends_init :: "runtime \<Rightarrow> int \<Rightarrow> (string \<times> nat \<times> nat) list" where
  "trends_init rt now =
     foldl (\<lambda>trends i. obj_set trends (isoDate rt (now - i * 86400000)) (0, 0)) []
       [6, 5, 4, 3, 2, 1, 0]"

definition trends_count ::
  "(string \<times> nat \<times> nat) list \<Rightarrow> lead \<Rightarrow> (string \<times> nat \<times> nat) list" where
  "trends_count trends r =
     (if lastCallDate r = [] then trends
      else (case map_of trends (date_part (lastCallDate r)) of
              None \<Rightarrow> trends
            | Some (calls, booked) \<Rightarrow>
                obj_set trends (date_part (lastCallDate r))
                  (calls + 1, if status r = ''Booked'' then booked + 1 else booked)))"

definition emdash :: string where
  "emdash = [char_of (226 :: nat), char_of (128 :: nat), char_of (148 :: nat)]"

definition compute_stats :: "runtime \<Rightarrow> int \<Rightarrow> lead list \<Rightarrow> stats" where
  "compute_stats rt now all =
     (let today = isoDate rt now;
          yesterday = isoDate rt (now - 86400000);
          contacted = length (filter (\<lambda>r. lastCallDate r \<noteq> []) all);
          booked = length (filter (\<lambda>r. status r = ''Booked'') all);
          durations = map probedDuration (filter (\<lambda>r. 0 < probedDuration r) all);
          bookedLeads = filter (\<lambda>r. status r = ''Booked'' \<and> 0 < attemptCount r) all;
          trends = foldl trends_count (trends_init rt now) all;
          days = sort_by code_unit_compare (map fst trends)
      in \<lparr> bookedToday =
             length (filter (\<lambda>r. status r = ''Booked'' \<and> startsWith (lastCallDate r) today) all),
           bookedYesterday =
             length (filter (\<lambda>r. status r = ''Booked'' \<and> startsWith (lastCallDate r) yesterday) all),
           readyToCall = length (filter (\<lambda>r. status r = ''Ready to Call'') all),
           needsRetry = length (filter (\<lambda>r. status r = ''Needs Retry'') all),
           callbacksScheduled = length (filter (\<lambda>r. status r = ''Callback Requested'') all),
           currentlyCalling = length (filter (\<lambda>r. status r = ''Currently Calling'') all),
           totalCallsToday =
             length (filter (\<lambda>r. lastCallDate r \<noteq> [] \<and> startsWith (lastCallDate r) today) all),
           totalCallsYesterday =
             length (filter (\<lambda>r. lastCallDate r \<noteq> [] \<and> startsWith (lastCallDate r) yesterday) all),
           conversionRate =
             (if 0 < contacted then toFixed1 rt (of_nat booked / of_nat contacted * 100)
              else ''0.0''),
           totalBooked = booked,
           totalContacted = contacted,
           avgDuration =
             (if 0 < length durations
              then Math_round (of_int (foldl (+) 0 durations) / of_nat (length durations))
              else 0),
           avgAttemptsToBook =
             (if 0 < length bookedLeads
              then toFixed1 rt (of_int (foldl (\<lambda>a r. a + attemptCount r) 0 bookedLeads)
                     / of_nat (length bookedLeads))
              else emdash),
           callsTrend =
             map (\<lambda>d. case map_of trends d of None \<Rightarrow> 0 | Some (calls, booked) \<Rightarrow> calls) days,
           bookedTrend =
             map (\<lambda>d. case map_of trends d of None \<Rightarrow> 0 | Some (calls, booked) \<Rightarrow> booked) days,
           trendDays = days \<rparr>)"

subsection \<open>Response\<close>

record filter_options =
  statuses :: "string list"
  outcomes :: "string list"
  agents :: "string list"

definition filter_options_of :: "lead list \<Rightarrow> filter_options" where
  "filter_options_of all =
     \<lparr> statuses = sort_by code_unit_compare (uniq (filter (\<lambda>v. v \<noteq> []) (map status all))),
       outcomes = sort_by code_unit_compare (uniq (filter (\<lambda>v. v \<noteq> []) (map callOutcome all))),
       agents = sort_by code_unit_compare
         (uniq (filter (\<lambda>v. v \<noteq> [] \<and> v \<noteq> ''Unknown'') (map agentName all))) \<rparr>"

record leads_response =
  resp_stats :: stats
  resp_records :: "lead list"
  resp_pagination :: pagination
  resp_filters :: filter_options

definition leads_view :: "runtime \<Rightarrow> int \<Rightarrow> lead list \<Rightarrow> query \<Rightarrow> leads_response" where
  "leads_view rt now all qu =
     (let filtered = sorted_filtered rt qu all;
          paged = paginate rt qu filtered
      in \<lparr> resp_stats = compute_stats rt now all,
           resp_records = fst paged,
           resp_pagination = snd paged,
           resp_filters = filter_options_of all \<rparr>)"

subsection \<open>What the comparator needs of \<open>localeCompare\<close>\<close>

text \<open>
  \<open>localeCompare\<close> is a consistent comparator when exchanging its arguments exchanges the
  sign of the result and the order it gives is transitive. The strings of numbers come
  after the empty string.
\<close>

definition consistent_comparator :: "(string \<Rightarrow> string \<Rightarrow> int) \<Rightarrow> bool" where
  "consistent_comparator lc =
     ((\<forall>a b. (lc a b < 0) = (0 < lc b a))
      \<and> (\<forall>a b c. lc a b \<le> 0 \<and> lc b c \<le> 0 \<longrightarrow> lc a c \<le> 0)
      \<and> (\<forall>n. 0 < lc (String_of_int n) []))"



subsection \<open>Example queries\<close>

text \<open>
  A runtime whose \<open>localeCompare\<close> is the order by code unit, whose clock always shows the
  same day, and whose other functions the examples do not reach.
\<close>

definition lex_runtime :: runtime where
  "lex_runtime =
     \<lparr> parseInt = (\<lambda>s. None), localeCompare = code_unit_compare, toLowerCase = (\<lambda>s. s),
       isoDate = (\<lambda>t. ''2024-05-02''), toFixed1 = (\<lambda>x. ''100.0'') \<rparr>"

definition no_query :: query where
  "no_query =
     \<lparr> q_search = None, q_status = None, q_outcome = None, q_agent = None, q_dateFrom = None,
       q_dateTo = None, q_minDuration = None, q_page = None, q_limit = None, q_sort = None,
       q_dir = None \<rparr>"


definition long_call :: lead where
  "long_call = (lead_of ''2'' ''Booked'')\<lparr>callDuration := 30\<rparr>"









section \<open>Duration buckets of the analytics endpoint\<close>

text \<open>
  The \<open>durationBuckets\<close> object of \<open>GET /api/analytics\<close> (line 348) and the part of the loop
  over the snapshot that fills it (lines 353 to 361).
\<close>

record durationBuckets =
  b_0_30s :: nat
  b_30_60s :: nat
  b_1_2m :: nat
  b_2_5m :: nat
  b_5_10m :: nat
  b_10m_plus :: nat

definition count_duration :: "durationBuckets \<Rightarrow> lead \<Rightarrow> durationBuckets" where
  "count_duration b r =
     (if probedDuration r > 0 then
        (let d = probedDuration r in
         if d \<le> 30 then b\<lparr>b_0_30s := b_0_30s b + 1\<rparr>
         else if d \<le> 60 then b\<lparr>b_30_60s := b_30_60s b + 1\<rparr>
         else if d \<le> 120 then b\<lparr>b_1_2m := b_1_2m b + 1\<rparr>
         else if d \<le> 300 then b\<lparr>b_2_5m := b_2_5m b + 1\<rparr>
         else if d \<le> 600 then b\<lparr>b_5_10m := b_5_10m b + 1\<rparr>
         else b\<lparr>b_10m_plus := b_10m_plus b + 1\<rparr>)
      else b)"

definition analytics_durationBuckets :: "lead list \<Rightarrow> durationBuckets" where
  "analytics_durationBuckets all =
     foldl count_duration
       \<lparr> b_0_30s = 0, b_30_60s = 0, b_1_2m = 0, b_2_5m = 0, b_5_10m = 0, b_10m_plus = 0 \<rparr> all"

definition bucket_total :: "durationBuckets \<Rightarrow> nat" where
  "bucket_total b = b_0_30s b + b_30_60s b + b_1_2m b + b_2_5m b + b_5_10m b + b_10m_plus b"

definition count_where :: "(lead \<Rightarrow> bool) \<Rightarrow> lead list \<Rightarrow> nat" where
  "count_where P all = length (filter P all)"

section \<open>Theorems\<close>

subsection \<open>Duration buckets\<close>

lemma foldl_count_duration:
  "foldl count_duration b all =
     \<lparr> b_0_30s = b_0_30s b + count_where (\<lambda>r. 0 < probedDuration r \<and> probedDuration r \<le> 30) all,
       b_30_60s = b_30_60s b + count_where (\<lambda>r. 30 < probedDuration r \<and> probedDuration r \<le> 60) all,
       b_1_2m = b_1_2m b + count_where (\<lambda>r. 60 < probedDuration r \<and> probedDuration r \<le> 120) all,
       b_2_5m = b_2_5m b + count_where (\<lambda>r. 120 < probedDuration r \<and> probedDuration r \<le> 300) all,
       b_5_10m = b_5_10m b + count_where (\<lambda>r. 300 < probedDuration r \<and> probedDuration r \<le> 600) all,
       b_10m_plus = b_10m_plus b + count_where (\<lambda>r. 600 < probedDuration r) all \<rparr>"
proof (induction all arbitrary: b)
  case Nil
  show ?case by (simp add: count_where_def)
next
  case (Cons r rs)
  show ?case
    unfolding foldl_Cons Cons.IH
    by (simp add: count_duration_def count_where_def Let_def)
qed

lemma count_where_buckets:
  "count_where (\<lambda>r. 0 < probedDuration r \<and> probedDuration r \<le> 30) all
   + count_where (\<lambda>r. 30 < probedDuration r \<and> probedDuration r \<le> 60) all
   + count_where (\<lambda>r. 60 < probedDuration r \<and> probedDuration r \<le> 120) all
   + count_where (\<lambda>r. 120 < probedDuration r \<and> probedDuration r \<le> 300) all
   + count_where (\<lambda>r. 300 < probedDuration r \<and> probedDuration r \<le> 600) all
   + count_where (\<lambda>r. 600 < probedDuration r) all
   = count_where (\<lambda>r. 0 < probedDuration r) all"
  by (induction all) (auto simp: count_where_def)

text \<open>
  C10. In the duration histogram of the analytics endpoint each bucket counts the records
  whose \<open>probedDuration\<close> lies in its range, the ranges being cut at 30, 60, 120, 300 and
  600 seconds and starting strictly above 0; the six counts add up to the number of records
  of positive \<open>probedDuration\<close>, whatever the size of the snapshot: on a snapshot of one
  record with \<open>probedDuration = 0\<close> they add up to 0.
\<close>

theorem durationBuckets_count_positive:
  "b_0_30s (analytics_durationBuckets all)
     = count_where (\<lambda>r. 0 < probedDuration r \<and> probedDuration r \<le> 30) all
   \<and> b_30_60s (analytics_durationBuckets all)
     = count_where (\<lambda>r. 30 < probedDuration r \<and> probedDuration r \<le> 60) all
   \<and> b_1_2m (analytics_durationBuckets all)
     = count_where (\<lambda>r. 60 < probedDuration r \<and> probedDuration r \<le> 120) all
   \<and> b_2_5m (analytics_durationBuckets all)
     = count_where (\<lambda>r. 120 < probedDuration r \<and> probedDuration r \<le> 300) all
   \<and> b_5_10m (analytics_durationBuckets all)
     = count_where (\<lambda>r. 300 < probedDuration r \<and> probedDuration r \<le> 600) all
   \<and> b_10m_plus (analytics_durationBuckets all)
     = count_where (\<lambda>r. 600 < probedDuration r) all
   \<and> bucket_total (analytics_durationBuckets all)
     = count_where (\<lambda>r. 0 < probedDuration r) all
   \<and> bucket_total (analytics_durationBuckets [lead_of ''1'' ''New'']) = 0"
proof -
  have "count_where (\<lambda>r. 0 < probedDuration r) [lead_of ''1'' ''New''] = 0"
    by (simp add: count_where_def lead_of_def)
  then show ?thesis
    unfolding analytics_durationBuckets_def foldl_count_duration bucket_total_def
    using count_where_buckets [of all] count_where_buckets [of "[lead_of ''1'' ''New'']"]
    by simp
qed

subsection \<open>Event broadcaster\<close>

lemma write_all_eq:
  "write_all wr ev cs frames =
     (case find (\<lambda>c. wr c = Threw) cs of None \<Rightarrow> None | Some c \<Rightarrow> Some (WriteFailed c),
      frames @ deliveries wr (takeWhile (\<lambda>c. wr c \<noteq> Threw) cs) ev)"
  by (induction cs arbitrary: frames) (auto simp: deliveries_def split: write_result.splits)

lemma find_no_throw:
  "\<forall>c\<in>set cs. wr c \<noteq> Threw \<Longrightarrow> find (\<lambda>c. wr c = Threw) cs = None"
  by (induction cs) auto

lemma broadcast_no_throw:
  assumes "\<forall>c\<in>set (sseClients s). wr c \<noteq> Threw"
  shows "broadcast wr ev s =
    (None, s\<lparr>broadcasts := broadcasts s @ [ev],
              written := written s @ deliveries wr (sseClients s) ev\<rparr>)"
  using assms
  by (simp add: broadcast_def write_all_eq find_no_throw takeWhile_eq_all_conv [THEN iffD2])



subsection \<open>Change detector\<close>

lemma oldMap_of_snoc: "oldMap_of (xs @ [x]) = (oldMap_of xs)(id' x \<mapsto> x)"
  by (simp add: oldMap_of_def)

lemma oldMap_of_old_record: "oldMap_of oldRecs = old_record oldRecs"
proof (rule ext)
  fix i
  show "oldMap_of oldRecs i = old_record oldRecs i"
  proof (induction oldRecs rule: rev_induct)
    case Nil
    show ?case by (simp add: oldMap_of_def old_record_def)
  next
    case (snoc x xs)
    then show ?case by (simp add: oldMap_of_snoc old_record_def)
  qed
qed

lemma after_events_Nil: "after_events wr [] s = s"
  by (simp add: after_events_def)

lemma after_events_append:
  "after_events wr (xs @ ys) s = after_events wr ys (after_events wr xs s)"
  by (simp add: after_events_def)

lemma after_events_clients: "sseClients (after_events wr evs s) = sseClients s"
  by (simp add: after_events_def)

lemma broadcast_after_events:
  "\<forall>c\<in>set (sseClients s). wr c \<noteq> Threw \<Longrightarrow> broadcast wr ev s = (None, after_events wr [ev] s)"
  by (simp add: broadcast_no_throw after_events_def)

lemma detectChanges_loop_no_throw:
  assumes "\<forall>c\<in>set (sseClients s). wr c \<noteq> Threw"
  shows "detectChanges_loop wr (old_record oldRecs) newRecs s =
           (None, after_events wr (spec_diff oldRecs newRecs) s)"
  using assms
proof (induction newRecs arbitrary: s)
  case Nil
  show ?case by (simp add: spec_diff_def after_events_Nil)
next
  case (Cons nr rest)
  have d: "spec_diff oldRecs (nr # rest) = spec_group oldRecs nr @ spec_diff oldRecs rest"
    by (simp add: spec_diff_def)
  have ih: "\<And>evs. detectChanges_loop wr (old_record oldRecs) rest (after_events wr evs s) =
           (None, after_events wr (spec_diff oldRecs rest) (after_events wr evs s))"
    using Cons.prems by (intro Cons.IH) (simp add: after_events_clients)
  have b: "\<And>ev evs. broadcast wr ev (after_events wr evs s) = (None, after_events wr (evs @ [ev]) s)"
    using Cons.prems by (simp add: broadcast_after_events after_events_clients after_events_append)
  have b0: "\<And>ev. broadcast wr ev s = (None, after_events wr [ev] s)"
    using b [of _ "[]"] by (simp add: after_events_Nil)
  have ih0: "detectChanges_loop wr (old_record oldRecs) rest s =
           (None, after_events wr (spec_diff oldRecs rest) s)"
    using ih [of "[]"] by (simp add: after_events_Nil)
  show ?case
    unfolding d after_events_append
    by (simp add: spec_group_def b b0 ih ih0 after_events_Nil split: option.splits)
qed

lemma detectChanges_loop_silent:
  "\<forall>nr\<in>set newRecs. spec_group oldRecs nr = [] \<Longrightarrow>
     detectChanges_loop wr (old_record oldRecs) newRecs s = (None, s)"
  by (induction newRecs) (auto simp: spec_group_def split: option.splits if_splits)

lemma old_record_self:
  "distinct (map id' snap) \<Longrightarrow> r \<in> set snap \<Longrightarrow> old_record snap (id' r) = Some r"
proof (induction snap rule: rev_induct)
  case Nil
  then show ?case by simp
next
  case (snoc x xs)
  then show ?case by (auto simp: old_record_def)
qed

lemma spec_group_self:
  "distinct (map id' snap) \<Longrightarrow> r \<in> set snap \<Longrightarrow> spec_group snap r = []"
  by (simp add: spec_group_def old_record_self)

text \<open>
  C4. \<open>detectChanges\<close> hands to \<open>broadcast\<close>, in the order of the new snapshot, one group
  of events per new record: \<open>new_lead\<close> when no old record has its id; else
  \<open>status_change\<close> when the status differs, followed by \<open>appointment_booked\<close> exactly
  when the new status is Booked and the old one is not; else \<open>new_call\<close> with the outcome
  when the last-call date differs; an old record without a new one gives nothing. This
  holds whenever no write to a subscribed channel throws. On the two snapshots of the
  specification it emits status_change, appointment_booked, new_lead in that order, and on
  a snapshot of distinct ids against itself it emits nothing.
\<close>

theorem detectChanges_emits_spec_diff:
  "((\<forall>c\<in>set (sseClients s). wr c \<noteq> Threw) \<longrightarrow>
      detectChanges wr oldRecs newRecs s
        = (None, after_events wr (spec_diff oldRecs newRecs) s))
   \<and> detectChanges wr [lead_of ''1'' ''New''] [lead_of ''1'' ''Booked'', lead_of ''2'' ''New'']
        server0
      = (None, server0\<lparr>broadcasts :=
          [status_change '' '' ''New'' ''Booked'', appointment_booked '' '', new_lead '' '']\<rparr>)
   \<and> (distinct (map id' snap) \<longrightarrow> detectChanges wr snap snap s = (None, s))"
proof (intro conjI impI)
  assume "\<forall>c\<in>set (sseClients s). wr c \<noteq> Threw"
  then show "detectChanges wr oldRecs newRecs s
        = (None, after_events wr (spec_diff oldRecs newRecs) s)"
    by (simp add: detectChanges_def oldMap_of_old_record detectChanges_loop_no_throw)
next
  show "detectChanges wr [lead_of ''1'' ''New''] [lead_of ''1'' ''Booked'', lead_of ''2'' ''New'']
        server0
      = (None, server0\<lparr>broadcasts :=
          [status_change '' '' ''New'' ''Booked'', appointment_booked '' '', new_lead '' '']\<rparr>)"
    by (simp add: detectChanges_def oldMap_of_def lead_of_def server0_def broadcast_def
        full_name_def)
next
  assume "distinct (map id' snap)"
  then show "detectChanges wr snap snap s = (None, s)"
    by (simp add: detectChanges_def oldMap_of_old_record detectChanges_loop_silent
        spec_group_self)
qed

theorem detectChanges_emits_spec_diff_witness:
  "detectChanges second_drops [lead_of ''1'' ''New'']
      [(lead_of ''1'' ''New'')\<lparr>lastCallDate := ''2024-05-01T10:00:00.000Z'',
         callOutcome := ''VOICEMAIL''\<rparr>] three_clients
     = (None, three_clients\<lparr>broadcasts := [new_call '' '' ''VOICEMAIL''],
          written := [(1, new_call '' '' ''VOICEMAIL''), (3, new_call '' '' ''VOICEMAIL'')]\<rparr>)
   \<and> detectChanges second_drops [lead_of ''1'' ''New'', lead_of ''2'' ''Booked'']
       [lead_of ''1'' ''New'', lead_of ''2'' ''Booked''] three_clients
     = (None, three_clients)"
  using detectChanges_emits_spec_diff [where s = three_clients and wr = second_drops
      and oldRecs = "[lead_of ''1'' ''New'']"
      and newRecs = "[(lead_of ''1'' ''New'')\<lparr>lastCallDate := ''2024-05-01T10:00:00.000Z'',
         callOutcome := ''VOICEMAIL''\<rparr>]"
      and snap = "[lead_of ''1'' ''New'', lead_of ''2'' ''Booked'']"]
  by (simp add: second_drops_def three_clients_def server0_def after_events_def spec_diff_def
      spec_group_def old_record_def deliveries_def lead_of_def full_name_def)

subsection \<open>Snapshot cache, fetcher and duration probe\<close>

lemma run_task_Returned: "run_task up (Returned res) s = Some (res, s)"
  by (simp add: run_task.simps)

lemma run_task_AwaitPage:
  "run_task up (AwaitPage now a k off) s =
     (case resume up (AwaitPage now a k off) s of (t1, s1) \<Rightarrow> run_task up t1 s1)"
  by (subst run_task.simps) simp

lemma run_task_AwaitProbes:
  "run_task up (AwaitProbes now a ms k urls) s =
     (case resume up (AwaitProbes now a ms k urls) s of (t1, s1) \<Rightarrow> run_task up t1 s1)"
  by (subst run_task.simps) simp

lemma broadcast_core:
  "broadcast wr ev s = (e, s1) \<Longrightarrow>
     cache s1 = cache s \<and> durationCache s1 = durationCache s \<and> sseClients s1 = sseClients s
     \<and> page_requests s1 = page_requests s \<and> head_requests s1 = head_requests s"
  by (auto simp: broadcast_def split: prod.splits)

lemma detectChanges_loop_core:
  "detectChanges_loop wr m newRecs s = (e, s1) \<Longrightarrow>
     cache s1 = cache s \<and> durationCache s1 = durationCache s \<and> sseClients s1 = sseClients s
     \<and> page_requests s1 = page_requests s \<and> head_requests s1 = head_requests s"
proof (induction newRecs arbitrary: s)
  case Nil
  then show ?case by simp
next
  case (Cons nr rest)
  show ?case
    using Cons.prems
    by (auto split: option.splits prod.splits if_splits dest!: broadcast_core Cons.IH)
qed

lemma broadcast_error:
  "broadcast wr ev s = (Some e, s1) \<Longrightarrow> \<not> page_failure e"
  by (auto simp: broadcast_def write_all_eq page_failure_def split: option.splits)

lemma detectChanges_loop_error:
  "detectChanges_loop wr m newRecs s = (Some e, s1) \<Longrightarrow> \<not> page_failure e"
proof (induction newRecs arbitrary: s)
  case Nil
  then show ?case by simp
next
  case (Cons nr rest)
  show ?case
    using Cons.prems
    by (auto split: option.splits prod.splits if_splits dest: broadcast_error Cons.IH)
qed

lemma detectChanges_core:
  "detectChanges wr oldRecs newRecs s = (e, s1) \<Longrightarrow>
     cache s1 = cache s \<and> durationCache s1 = durationCache s \<and> sseClients s1 = sseClients s
     \<and> page_requests s1 = page_requests s \<and> head_requests s1 = head_requests s
     \<and> (case e of None \<Rightarrow> True | Some x \<Rightarrow> \<not> page_failure x)"
  unfolding detectChanges_def
  using detectChanges_loop_core [of wr "oldMap_of oldRecs" newRecs s e s1]
    detectChanges_loop_error [of wr "oldMap_of oldRecs" newRecs s _ s1]
  by (auto split: option.splits)

lemma probedDuration_attach:
  "probedDuration (attach dc r) =
     (if callDuration r \<noteq> 0 then callDuration r
      else case dc (recordingUrl r) of None \<Rightarrow> 0 | Some d \<Rightarrow> d)"
  by (simp add: attach_def mapped.defs lead.defs split: option.splits)

lemma attach_fields:
  "callDuration (attach dc r) = callDuration r" "recordingUrl (attach dc r) = recordingUrl r"
  "id' (attach dc r) = id' r" "status (attach dc r) = status r"
  by (simp_all add: attach_def mapped.defs lead.defs)

lemma list_all_attach: "list_all (probed_as_attached dc) (map (attach dc) ms)"
  by (induction ms) (simp_all add: probed_as_attached_def probedDuration_attach attach_fields)

lemma resume_AwaitProbes_post:
  "resume up (AwaitProbes now a ms k urls) s = (t1, s1) \<Longrightarrow>
     page_requests s1 = page_requests s \<and>
     ((\<exists>e. t1 = Returned (Inl e) \<and> \<not> page_failure e)
      \<or> (\<exists>rs. t1 = Returned (Inr rs) \<and> installed now rs s1))"
  by (auto simp: Let_def installed_def list_all_attach
      split: option.splits prod.splits dest!: detectChanges_core)

lemma run_task_post:
  assumes "run_task up0 t0 s0 = Some y0"
  shows "run_post t0 s0 y0"
proof (rule run_task.raw_induct [where P = "\<lambda>up t s y. run_post t s y", OF _ assms])
  fix run :: "upstream \<Rightarrow> task \<Rightarrow> server \<Rightarrow> ((error + lead list) \<times> server) option"
  fix up t s y
  assume IH: "\<And>t s b y. run t s b = Some y \<Longrightarrow> run_post s b y"
  assume body: "(case t of
        AwaitPage now allRecords k offset \<Rightarrow>
          (case resume up t s of (t1, s1) \<Rightarrow> run up t1 s1)
      | AwaitProbes now allRecords ms k urls \<Rightarrow>
          (case resume up t s of (t1, s1) \<Rightarrow> run up t1 s1)
      | Returned res \<Rightarrow> Some (res, s)) = Some y"
  show "run_post t s y"
  proof (cases t)
    case (Returned res)
    with body show ?thesis by (auto simp: run_post_def)
  next
    case (AwaitProbes now a ms k urls)
    obtain t1 s1 where r: "resume up (AwaitProbes now a ms k urls) s = (t1, s1)"
      by (cases "resume up (AwaitProbes now a ms k urls) s")
    from body have "run up t1 s1 = Some y"
      unfolding AwaitProbes task.case r prod.case .
    then have p: "run_post t1 s1 y" by (rule IH)
    from resume_AwaitProbes_post [OF r] p show ?thesis
      unfolding AwaitProbes by (auto simp: run_post_def)
  next
    case (AwaitPage now a k off)
    obtain t1 s1 where r: "resume up (AwaitPage now a k off) s = (t1, s1)"
      by (cases "resume up (AwaitPage now a k off) s")
    from body have "run up t1 s1 = Some y"
      unfolding AwaitPage task.case r prod.case .
    then have p: "run_post t1 s1 y" by (rule IH)
    from r p show ?thesis
      unfolding AwaitPage
      by (auto simp: run_post_def send_page_def Let_def page_failure_def
          split: page_response.splits option.splits if_splits sum.splits)
  qed
qed

lemma run_task_fails_at:
  "fails_at up k off n = Some e \<Longrightarrow> page_requests s = Suc k \<Longrightarrow>
     run_task up (AwaitPage now a k off) s = Some (Inl e, s\<lparr>page_requests := Suc k + n\<rparr>)"
proof (induction n arbitrary: k off a s)
  case 0
  then show ?case
    by (auto simp: run_task_AwaitPage run_task_Returned split: page_response.splits)
next
  case (Suc n)
  from Suc.prems(1) obtain recs x where
    pg: "airtable up k off = Page recs (Some x)" and x: "x \<noteq> []"
    and f: "fails_at up (Suc k) (Some x) n = Some e"
    by (auto split: page_response.splits option.splits if_splits)
  have "run_task up (AwaitPage now (a @ recs) (Suc k) (Some x)) (s\<lparr>page_requests := Suc (Suc k)\<rparr>)
      = Some (Inl e, s\<lparr>page_requests := Suc (Suc k)\<rparr>\<lparr>page_requests := Suc (Suc k) + n\<rparr>)"
    by (rule Suc.IH [OF f]) simp
  then show ?case
    using pg x Suc.prems(2) by (simp add: run_task_AwaitPage [of up now a k] send_page_def)
qed

lemma call_fresh:
  "records (cache s) = Some rs \<Longrightarrow> now - ts (cache s) < CACHE_TTL \<Longrightarrow>
     call now s = (Returned (Inr rs), s)"
  by (simp add: call_def)

lemma call_stale: "\<not> fresh now (cache s) \<Longrightarrow> call now s = send_page now [] None s"
  by (auto simp: call_def fresh_def split: option.splits)

lemma fetchAllRecords_stale:
  "\<not> fresh now (cache s) \<Longrightarrow>
     fetchAllRecords up now s =
       run_task up (AwaitPage now [] (page_requests s) None)
         (s\<lparr>page_requests := Suc (page_requests s)\<rparr>)"
  by (simp add: fetchAllRecords_def call_stale send_page_def)

lemma fetchAllRecords_post:
  assumes "\<not> fresh now (cache s)" and "fetchAllRecords up now s = Some (res, s1)"
  shows "page_requests s < page_requests s1
    \<and> (case res of
         Inl e \<Rightarrow> if page_failure e then s1 = s\<lparr>page_requests := page_requests s1\<rparr> else True
       | Inr rs \<Rightarrow> installed now rs s1)"
  using run_task_post [of up "AwaitPage now [] (page_requests s) None"
      "s\<lparr>page_requests := Suc (page_requests s)\<rparr>" "(res, s1)"] assms
  by (auto simp: fetchAllRecords_stale run_post_def split: sum.splits if_splits)

lemmas eval_defs = fetchAllRecords_def call_def server0_def send_page_def run_task_AwaitPage
  run_task_AwaitProbes run_task_Returned toProbe_of_def Let_def map_record_def js_or_def
  or_zero_def nullish_def no_fields_def

text \<open>
  C2. A call of \<open>fetchAllRecords\<close> on a cache that holds a snapshot with
  \<open>now - ts < CACHE_TTL\<close> returns that snapshot and leaves the whole state, the request
  counters included, as it was. Hence when a call at \<open>now'\<close> refetched and returned a
  snapshot, that call sent at least one page request, and a second call at \<open>now''\<close> with
  \<open>now'' - now' < CACHE_TTL\<close> returns the same snapshot and sends nothing, whatever the
  upstream would answer by then.
\<close>

theorem fetchAllRecords_within_ttl:
  "(records (cache s) = Some rs \<and> now - ts (cache s) < CACHE_TTL \<longrightarrow>
      fetchAllRecords up now s = Some (Inr rs, s))
   \<and> (\<not> fresh now' (cache s) \<and> fetchAllRecords up now' s = Some (Inr rs', s')
        \<and> now'' - now' < CACHE_TTL \<longrightarrow>
      page_requests s < page_requests s'
      \<and> fetchAllRecords up' now'' s' = Some (Inr rs', s'))"
proof (intro conjI impI)
  assume "records (cache s) = Some rs \<and> now - ts (cache s) < CACHE_TTL"
  then show "fetchAllRecords up now s = Some (Inr rs, s)"
    by (simp add: fetchAllRecords_def call_fresh run_task_Returned)
next
  assume a: "\<not> fresh now' (cache s) \<and> fetchAllRecords up now' s = Some (Inr rs', s')
        \<and> now'' - now' < CACHE_TTL"
  with fetchAllRecords_post [of now' s up "Inr rs'" s']
  have p: "page_requests s < page_requests s'" and i: "installed now' rs' s'" by simp_all
  from p show "page_requests s < page_requests s'" .
  from i a show "fetchAllRecords up' now'' s' = Some (Inr rs', s')"
    by (simp add: installed_def fetchAllRecords_def call_fresh run_task_Returned)
qed

lemma first_fetch_A:
  "fetchAllRecords changing_table 100000 server0 = Some (Inr snapshot_A, server_A)"
  by (simp add: eval_defs changing_table_def snapshot_A_def server_A_def recA_New_def)

theorem fetchAllRecords_within_ttl_witness:
  "fetchAllRecords changing_table 100000 server0 = Some (Inr snapshot_A, server_A)
   \<and> page_requests server0 < page_requests server_A
   \<and> fetchAllRecords changing_table 119999 server_A = Some (Inr snapshot_A, server_A)"
proof -
  have h1: "\<not> fresh 100000 (cache server0)"
    by (simp add: fresh_def server0_def)
  have h2: "(119999::int) - 100000 < CACHE_TTL"
    by (simp add: CACHE_TTL_def)
  have h3: "records (cache server_A) = Some snapshot_A \<and> 119999 - ts (cache server_A) < CACHE_TTL"
    by (simp add: server_A_def CACHE_TTL_def)
  from fetchAllRecords_within_ttl [where s = server0 and up = changing_table
      and now' = 100000 and rs' = snapshot_A and s' = server_A and now'' = 119999
      and up' = changing_table]
    fetchAllRecords_within_ttl [where s = server_A and up = changing_table and now = 119999
      and rs = snapshot_A]
    first_fetch_A h1 h2 h3
  show ?thesis by blast
qed

text \<open>
  C3. When the cache is stale and the page requests of the call are answered by \<open>n\<close> pages
  with a cursor and then by a failure (a transport failure or a response that is not ok),
  \<open>fetchAllRecords\<close> returns that error and the state is the one before the call but for
  the counter of page requests: records, raw payload, timestamp, duration cache and
  subscribers are untouched. A call at any later time sends a page request again. And
  whenever a call returns a page error, the state differs from the one before the call in
  that counter only.
\<close>

theorem fetchAllRecords_page_failure_keeps_cache:
  "(\<not> fresh now (cache s) \<and> fails_at up (page_requests s) None n = Some e \<longrightarrow>
      fetchAllRecords up now s = Some (Inl e, s\<lparr>page_requests := Suc (page_requests s) + n\<rparr>)
      \<and> (now \<le> now' \<longrightarrow>
           call now' (s\<lparr>page_requests := Suc (page_requests s) + n\<rparr>)
             = (AwaitPage now' [] (Suc (page_requests s) + n) None,
                s\<lparr>page_requests := Suc (Suc (page_requests s) + n)\<rparr>)))
   \<and> (fetchAllRecords up now s = Some (Inl e, s') \<and> page_failure e \<longrightarrow>
        s' = s\<lparr>page_requests := page_requests s'\<rparr>)"
proof (intro conjI impI)
  assume a: "\<not> fresh now (cache s) \<and> fails_at up (page_requests s) None n = Some e"
  then show "fetchAllRecords up now s = Some (Inl e, s\<lparr>page_requests := Suc (page_requests s) + n\<rparr>)"
    using run_task_fails_at [of up "page_requests s" None n e
        "s\<lparr>page_requests := Suc (page_requests s)\<rparr>" now "[]"]
    by (simp add: fetchAllRecords_stale)
  assume "now \<le> now'"
  with a have "\<not> fresh now' (cache (s\<lparr>page_requests := Suc (page_requests s) + n\<rparr>))"
    by (auto simp: fresh_def)
  then show "call now' (s\<lparr>page_requests := Suc (page_requests s) + n\<rparr>)
             = (AwaitPage now' [] (Suc (page_requests s) + n) None,
                s\<lparr>page_requests := Suc (Suc (page_requests s) + n)\<rparr>)"
    by (simp add: call_stale send_page_def)
next
  assume a: "fetchAllRecords up now s = Some (Inl e, s') \<and> page_failure e"
  show "s' = s\<lparr>page_requests := page_requests s'\<rparr>"
  proof (cases "fresh now (cache s)")
    case True
    with a show ?thesis
      by (auto simp: fresh_def fetchAllRecords_def call_def run_task_Returned)
  next
    case False
    with fetchAllRecords_post [of now s up "Inl e" s'] a show ?thesis by simp
  qed
qed

theorem fetchAllRecords_page_failure_keeps_cache_witness:
  "fetchAllRecords second_page_fails 120000 server_A
     = Some (Inl (AirtableError 503 ''unavailable''), server_A\<lparr>page_requests := 3\<rparr>)
   \<and> call 130000 (server_A\<lparr>page_requests := 3\<rparr>)
     = (AwaitPage 130000 [] 3 None, server_A\<lparr>page_requests := 4\<rparr>)"
proof -
  have h1: "\<not> fresh 120000 (cache server_A)"
    by (simp add: fresh_def server_A_def CACHE_TTL_def)
  have h2: "fails_at second_page_fails (page_requests server_A) None 1
      = Some (AirtableError 503 ''unavailable'')"
    by (simp add: second_page_fails_def)
  have h3: "Suc (page_requests server_A) + 1 = 3"
    by (simp add: server_A_def)
  from fetchAllRecords_page_failure_keeps_cache [where s = server_A
      and up = second_page_fails and now = 120000 and n = 1
      and e = "AirtableError 503 ''unavailable''" and now' = 130000] h1 h2
  show ?thesis unfolding h3 by simp
qed

text \<open>
  C5 as stated: after a first call of \<open>probe(url)\<close>, whatever its outcome, a second call
  sends no metadata request and returns the value of the first. The first call is answered
  by a response that is not ok and returns 0; the second call on the resulting state sends
  a second HEAD request and returns 10.
\<close>

theorem probeWavDuration_failure_retried_counterexample:
  "probeWavDuration flaky_host ''https://x/a.wav'' server0
     = (0, server0\<lparr>head_requests := [''https://x/a.wav'']\<rparr>)
   \<and> probeWavDuration flaky_host ''https://x/a.wav''
       (server0\<lparr>head_requests := [''https://x/a.wav'']\<rparr>)
     = (10, server0\<lparr>head_requests := [''https://x/a.wav'', ''https://x/a.wav''],
              durationCache := [''https://x/a.wav'' \<mapsto> 10]\<rparr>)"
  by (simp add: probeWavDuration_def flaky_host_def server0_def head_duration_def Let_def)

lemma head_duration_cases:
  "head_duration HeadRejected = None
   \<and> head_duration (HeadResponse False cl) = None
   \<and> head_duration (HeadResponse True None) = None
   \<and> head_duration (HeadResponse True (Some n))
       = (if n \<le> 44 then None else Some ((int n - 44 + 24000) div 48000))"
  by (simp add: head_duration_def)

text \<open>
  C5 as amended: \<open>probeWavDuration\<close> returns 0 without a request when the url is empty.
  When a first call leaves a duration stored under the url (it found one there, or its HEAD
  request was answered ok with a content-length above 44), a second call sends no request
  and returns the value of the first, whatever the upstream would answer. When a first call
  fails (transport failure or timeout, a response that is not ok, no content-length or one
  of at most 44), it returns 0, stores nothing, and the second call sends a HEAD request
  again.
\<close>

theorem probeWavDuration_memoizes_stored_duration:
  "probeWavDuration up [] s = (0, s)
   \<and> (url \<noteq> [] \<and> durationCache (snd (probeWavDuration up url s)) url \<noteq> None \<longrightarrow>
        probeWavDuration up' url (snd (probeWavDuration up url s)) = probeWavDuration up url s)
   \<and> (url \<noteq> [] \<and> durationCache (snd (probeWavDuration up url s)) url = None \<longrightarrow>
        probeWavDuration up url s = (0, s\<lparr>head_requests := head_requests s @ [url]\<rparr>)
        \<and> head_requests (snd (probeWavDuration up' url (snd (probeWavDuration up url s))))
            = head_requests s @ [url, url])
   \<and> (url \<noteq> [] \<and> durationCache s url = None \<longrightarrow>
        durationCache (snd (probeWavDuration up url s)) url
          = head_duration (wav_head up (length (head_requests s)) url))
   \<and> head_duration HeadRejected = None
   \<and> head_duration (HeadResponse False cl) = None
   \<and> head_duration (HeadResponse True None) = None
   \<and> head_duration (HeadResponse True (Some n))
       = (if n \<le> 44 then None else Some ((int n - 44 + 24000) div 48000))"
  using head_duration_cases [of cl n]
  by (auto simp: probeWavDuration_def Let_def split: option.splits)

lemma probe_ok:
  "probeWavDuration recorded_table recording_A server0
     = (2, server0\<lparr>durationCache := [recording_A \<mapsto> 2], head_requests := [recording_A]\<rparr>)"
  by (simp add: probeWavDuration_def recorded_table_def server0_def head_duration_def Let_def
      recording_A_def)

lemma probe_fail:
  "probeWavDuration flaky_host recording_A server0
     = (0, server0\<lparr>head_requests := [recording_A]\<rparr>)"
  by (simp add: probeWavDuration_def flaky_host_def server0_def head_duration_def Let_def
      recording_A_def)

theorem probeWavDuration_memoizes_stored_duration_witness:
  "probeWavDuration flaky_host recording_A
       (server0\<lparr>durationCache := [recording_A \<mapsto> 2], head_requests := [recording_A]\<rparr>)
     = (2, server0\<lparr>durationCache := [recording_A \<mapsto> 2], head_requests := [recording_A]\<rparr>)
   \<and> probeWavDuration flaky_host recording_A server0
     = (0, server0\<lparr>head_requests := [recording_A]\<rparr>)
   \<and> head_requests (snd (probeWavDuration recorded_table recording_A
        (server0\<lparr>head_requests := [recording_A]\<rparr>))) = [recording_A, recording_A]"
proof -
  have u: "recording_A \<noteq> []" by (simp add: recording_A_def)
  have h1: "durationCache (snd (probeWavDuration recorded_table recording_A server0)) recording_A
      \<noteq> None"
    by (simp add: probe_ok)
  have h2: "durationCache (snd (probeWavDuration flaky_host recording_A server0)) recording_A
      = None"
    unfolding probe_fail by (simp add: server0_def)
  have e: "head_requests server0 = []" by (simp add: server0_def)
  from probeWavDuration_memoizes_stored_duration [where up = recorded_table and url = recording_A and s = server0 and up' = flaky_host]
    u h1
  have a: "probeWavDuration flaky_host recording_A
      (snd (probeWavDuration recorded_table recording_A server0))
    = probeWavDuration recorded_table recording_A server0"
    by blast
  from probeWavDuration_memoizes_stored_duration [where up = flaky_host and url = recording_A and s = server0 and up' = recorded_table]
    u h2
  have b: "probeWavDuration flaky_host recording_A server0
      = (0, server0\<lparr>head_requests := head_requests server0 @ [recording_A]\<rparr>)
    \<and> head_requests (snd (probeWavDuration recorded_table recording_A
          (snd (probeWavDuration flaky_host recording_A server0))))
      = head_requests server0 @ [recording_A, recording_A]"
    by blast
  from a b show ?thesis unfolding probe_ok probe_fail e by simp
qed





text \<open>
  C1 as stated: while the snapshot is stale, concurrent calls trigger exactly one upstream
  fetch, at most one fetch is in flight, and all callers receive the same snapshot. Two
  handlers call \<open>fetchAllRecords\<close> on the empty cache one after the other before any
  response has arrived: both calls are suspended on a page request of their own, two page
  requests are sent in all, and the first caller receives the record with status New, the
  second with status Booked.
\<close>

theorem concurrent_reads_two_fetches_counterexample:
  "fst (schedule changing_table [Call 100000, Call 100001] ([], server0))
     = [AwaitPage 100000 [] 0 None, AwaitPage 100001 [] 1 None]
   \<and> map returned_statuses
     (fst (schedule changing_table
        [Call 100000, Call 100001, Resume 0, Resume 1, Resume 0, Resume 1] ([], server0)))
     = [Some [(''recA'', ''New'')], Some [(''recA'', ''Booked'')]]
   \<and> page_requests
     (snd (schedule changing_table
        [Call 100000, Call 100001, Resume 0, Resume 1, Resume 0, Resume 1] ([], server0))) = 2"
  by (simp add: schedule_def eval_defs changing_table_def returned_statuses_def attach_fields
      detectChanges_def oldMap_of_def broadcast_def full_name_def)

lemma schedule_calls:
  "\<forall>now\<in>set nows. \<not> fresh now (cache s) \<Longrightarrow>
     schedule up (map Call nows) (tasks, s) =
       (tasks @ map (\<lambda>(i, now). AwaitPage now [] i None) (enumerate (page_requests s) nows),
        s\<lparr>page_requests := page_requests s + length nows\<rparr>)"
proof (induction nows arbitrary: tasks s)
  case Nil
  show ?case by (simp add: schedule_def)
next
  case (Cons now nows)
  have c: "call now s = (AwaitPage now [] (page_requests s) None, s\<lparr>page_requests := Suc (page_requests s)\<rparr>)"
    using Cons.prems by (simp add: call_stale send_page_def)
  have "schedule up (map Call (now # nows)) (tasks, s)
      = schedule up (map Call nows) (tasks @ [AwaitPage now [] (page_requests s) None],
          s\<lparr>page_requests := Suc (page_requests s)\<rparr>)"
    by (simp add: schedule_def c)
  also have "\<dots> = ((tasks @ [AwaitPage now [] (page_requests s) None])
        @ map (\<lambda>(i, now). AwaitPage now [] i None) (enumerate (Suc (page_requests s)) nows),
        s\<lparr>page_requests := Suc (page_requests s)\<rparr>\<lparr>page_requests := Suc (page_requests s) + length nows\<rparr>)"
    using Cons.prems by (subst Cons.IH) simp_all
  finally show ?case by simp
qed

text \<open>
  C1 as amended: every call of \<open>fetchAllRecords\<close> that starts while the snapshot is stale
  sends a page request of its own and is suspended on it. Calls made one after the other
  before any response arrives send as many page requests as there are calls, and leave the
  cache as it was.
\<close>

theorem concurrent_calls_one_request_each:
  "(\<forall>now\<in>set nows. \<not> fresh now (cache s)) \<longrightarrow>
     schedule up (map Call nows) (tasks, s) =
       (tasks @ map (\<lambda>(i, now). AwaitPage now [] i None) (enumerate (page_requests s) nows),
        s\<lparr>page_requests := page_requests s + length nows\<rparr>)"
  using schedule_calls by blast

theorem concurrent_calls_one_request_each_witness:
  "schedule changing_table [Call 100000, Call 100001, Call 100002] ([], server0)
     = ([AwaitPage 100000 [] 0 None, AwaitPage 100001 [] 1 None, AwaitPage 100002 [] 2 None],
        server0\<lparr>page_requests := 3\<rparr>)"
proof -
  have h: "\<forall>now\<in>set [100000, 100001, 100002]. \<not> fresh now (cache server0)"
    by (simp add: fresh_def server0_def)
  have e: "enumerate (page_requests server0) [100000, 100001, 100002 :: int]
      = [(0, 100000), (1, 100001), (2, 100002)]"
    by (simp add: server0_def)
  have p: "page_requests server0 + length [100000, 100001, 100002 :: int] = 3"
    by (simp add: server0_def)
  from concurrent_calls_one_request_each [where nows = "[100000, 100001, 100002]"
      and s = server0 and up = changing_table and tasks = "[]"] h
  show ?thesis unfolding e p by simp
qed

subsection \<open>View engine\<close>

lemma str_less_Nil2 [simp]: "\<not> str_less a []"
  by (cases a) simp_all

lemma str_less_asym: "str_less a b \<Longrightarrow> \<not> str_less b a"
  by (induction a b rule: str_less.induct) auto

lemma str_less_negtrans: "str_less c a \<Longrightarrow> str_less c b \<or> str_less b a"
proof (induction c a arbitrary: b rule: str_less.induct)
  case (2 y ys)
  then show ?case by (cases b) simp_all
next
  case (4 x xs y ys)
  show ?case
  proof (cases b)
    case Nil
    then show ?thesis by simp
  next
    case (Cons z zs)
    with 4 show ?thesis by (auto simp: not_less_iff_gr_or_eq)
  qed
qed simp_all

lemma digits_not_Nil: "digits n \<noteq> []"
  by (subst digits.simps) simp

lemma String_of_int_not_Nil: "String_of_int n \<noteq> []"
  by (simp add: String_of_int_def digits_not_Nil)

lemma code_unit_compare_le: "code_unit_compare a b \<le> 0 \<longleftrightarrow> \<not> str_less b a"
  using str_less_asym [of a b] by (auto simp: code_unit_compare_def)

lemma consistent_code_unit_compare: "consistent_comparator code_unit_compare"
  unfolding consistent_comparator_def
proof (intro conjI allI impI)
  fix a b
  show "(code_unit_compare a b < 0) = (0 < code_unit_compare b a)"
    using str_less_asym [of a b] by (auto simp: code_unit_compare_def)
next
  fix a b c assume "code_unit_compare a b \<le> 0 \<and> code_unit_compare b c \<le> 0"
  then show "code_unit_compare a c \<le> 0"
    unfolding code_unit_compare_le using str_less_negtrans [of c a b] by blast
next
  fix n
  have "str_less [] (String_of_int n)"
    using String_of_int_not_Nil [of n] by (cases "String_of_int n") simp_all
  then show "0 < code_unit_compare (String_of_int n) []"
    by (simp add: code_unit_compare_def)
qed














































lemma totalBooked_compute_stats:
  "totalBooked (compute_stats rt now all) = length (filter (\<lambda>r. status r = ''Booked'') all)"
  unfolding compute_stats_def Let_def by (rule stats.select_convs)

text \<open>
  C7. The stats block of the response is computed from the snapshot and the clock alone:
  two queries over the same snapshot get the same stats, whatever they filter, sort or
  page. A query whose filter matches no record of a snapshot with one booked record returns
  an empty page and \<open>totalBooked = 1\<close>.
\<close>

theorem stats_independent_of_query:
  "resp_stats (leads_view rt now all qu) = resp_stats (leads_view rt now all qu')
   \<and> resp_stats (leads_view rt now all qu) = compute_stats rt now all
   \<and> totalBooked (resp_stats (leads_view rt now all qu))
       = length (filter (\<lambda>r. status r = ''Booked'') all)
   \<and> resp_records (leads_view lex_runtime 0 [long_call] (no_query\<lparr>q_status := Some ''Lost''\<rparr>)) = []
   \<and> totalBooked
       (resp_stats (leads_view lex_runtime 0 [long_call] (no_query\<lparr>q_status := Some ''Lost''\<rparr>)))
       = 1"
proof -
  have e: "apply_filters lex_runtime (no_query\<lparr>q_status := Some ''Lost''\<rparr>) [long_call] = []"
    by (simp add: apply_filters_def when_given_def no_query_def long_call_def lead_of_def)
  have r: "resp_records (leads_view lex_runtime 0 [long_call] (no_query\<lparr>q_status := Some ''Lost''\<rparr>)) = []"
    by (simp add: leads_view_def Let_def sorted_filtered_def e sort_by_def paginate_def slice_def)
  have s: "resp_stats (leads_view rt now all qu) = compute_stats rt now all" for rt now all qu
    by (simp add: leads_view_def Let_def)
  have b: "length (filter (\<lambda>r. status r = ''Booked'') [long_call]) = 1"
    by (simp add: long_call_def lead_of_def)
  show ?thesis
    unfolding s totalBooked_compute_stats b using r by simp
qed

end
